theory Spec2Isabelle
  imports Main "HOL-Library.Multiset"
begin

section \<open>Editor widgets and the preferences container\<close>

text \<open>
  The model follows \<^verbatim>\<open>packages/preferences/src/browser/preferences-tree-widget.ts\<close>.
  The handlers run on the single UI thread; each handler is modelled as one atomic
  function from the state it reads to the state it leaves, together with the list of
  calls it makes on its collaborators, in the order in which it makes them.
\<close>

text \<open>
  \<^verbatim>\<open>PreferenceScope\<close> is the numeric enum of the core package; its first member
  \<^verbatim>\<open>Default\<close> is \<^verbatim>\<open>0\<close> and therefore falsy.
\<close>

datatype PreferenceScope = Default | User | Workspace | Folder

datatype AutoSave = On | Off

record Saveable =
  saveable_dirty :: bool
  saveable_autoSave :: AutoSave

text \<open>
  A preferences editor widget. \<open>uri\<close> stands for \<^verbatim>\<open>editor.uri.toString()\<close>; the
  editor manager hands out one widget per URI, so the URI also identifies the widget.
  \<open>scope\<close> is \<open>None\<close> while the field is undefined.
\<close>

record PreferencesEditorWidget =
  uri :: string
  scope :: "PreferenceScope option"
  saveable :: Saveable
  title_label :: string

record PreferencesContainer =
  editors :: "PreferencesEditorWidget list"
  currentEditor :: "PreferencesEditorWidget option"
  preferenceScope :: PreferenceScope

text \<open>The calls a handler makes on its collaborators, and its assignments to tracked fields.\<close>

datatype effect =
    Warn string
  | PreferenceServiceSet "string option" "string option" "PreferenceScope option" string
  | SaveableSave string
  | AssignPreferenceScope PreferenceScope
  | AssignCurrentEditor "string option"
  | CreateFile string
  | GetOrCreateByUri string
  | AddWidget string "string option"
  | WidgetClose string
  | WidgetDispose string
  | FireFolderPreferenceEditorUriChanged string

datatype error = TypeError

text \<open>\<^verbatim>\<open>Array.prototype.some\<close>.\<close>

fun some :: "('a \<Rightarrow> bool) \<Rightarrow> 'a list \<Rightarrow> bool" where
  "some p [] = False"
| "some p (x # xs) = (if p x then True else some p xs)"

definition autoSave :: "PreferencesContainer \<Rightarrow> AutoSave" where
  "autoSave c =
     (if some (\<lambda>editor. saveable_autoSave (saveable editor) = On) (editors c) then On else Off)"

definition dirty :: "PreferencesContainer \<Rightarrow> bool" where
  "dirty c = some (\<lambda>editor. saveable_dirty (saveable editor)) (editors c)"

definition save :: "PreferencesContainer \<Rightarrow> effect list" where
  "save c = map (\<lambda>editor. SaveableSave (uri editor)) (editors c)"

text \<open>
  The tree widget fires the selection event with the object \<^verbatim>\<open>{ [property]: value }\<close>.
  An event object is the list of its own properties in the order of \<^verbatim>\<open>Object.keys\<close>.
\<close>

definition firePreferenceSelected :: "string \<Rightarrow> string \<Rightarrow> (string \<times> string) list" where
  "firePreferenceSelected property v = [(property, v)]"

text \<open>\<^verbatim>\<open>Object.keys(value)[0]\<close>: undefined for an object without properties.\<close>

definition first_key :: "(string \<times> string) list \<Rightarrow> string option" where
  "first_key obj = (case obj of [] \<Rightarrow> None | (k, _) # _ \<Rightarrow> Some k)"

text \<open>\<^verbatim>\<open>value[name]\<close>: an undefined name is looked up as the key \<^verbatim>\<open>"undefined"\<close>.\<close>

definition property_of :: "(string \<times> string) list \<Rightarrow> string option \<Rightarrow> string option" where
  "property_of obj name =
     (case name of None \<Rightarrow> map_of obj ''undefined'' | Some k \<Rightarrow> map_of obj k)"

text \<open>The listener registered on \<^verbatim>\<open>treeWidget.onPreferenceSelected\<close> (lines 140-148).\<close>

definition onPreferenceSelected ::
  "PreferencesContainer \<Rightarrow> (string \<times> string) list \<Rightarrow> effect list" where
  "onPreferenceSelected c v =
     (let preferenceName = first_key v;
          preferenceValue = property_of v preferenceName
      in if dirty c then [Warn ''Preferences editor(s) has/have unsaved changes'']
         else (case currentEditor c of
                 Some cur \<Rightarrow> [PreferenceServiceSet preferenceName preferenceValue (scope cur) (uri cur)]
               | None \<Rightarrow> []))"

text \<open>\<^verbatim>\<open>editor.scope || PreferenceScope.User\<close>.\<close>

definition scope_or_User :: "PreferenceScope option \<Rightarrow> PreferenceScope" where
  "scope_or_User s = (case s of None \<Rightarrow> User | Some Default \<Rightarrow> User | Some x \<Rightarrow> x)"

text \<open>
  The listener registered on \<^verbatim>\<open>editorsContainer.onEditorChanged\<close> (lines 157-167).
  The payload is \<open>None\<close> for an undefined editor: the listener tests for it in its second
  statement, but its first statement reads \<^verbatim>\<open>editor.editor\<close> whenever a current editor
  exists, which then throws before anything is done.
\<close>

definition save_previous ::
  "PreferencesContainer \<Rightarrow> PreferencesEditorWidget option \<Rightarrow> error + effect list" where
  "save_previous c editor =
     (case currentEditor c of
        None \<Rightarrow> Inr []
      | Some cur \<Rightarrow>
          (case editor of
             None \<Rightarrow> Inl TypeError
           | Some e \<Rightarrow> Inr (if uri cur \<noteq> uri e then [SaveableSave (uri cur)] else [])))"

definition assign_editor ::
  "PreferencesContainer \<Rightarrow> PreferencesEditorWidget option \<Rightarrow> effect list \<times> PreferencesContainer" where
  "assign_editor c editor =
     (let s = (case editor of Some e \<Rightarrow> scope_or_User (scope e) | None \<Rightarrow> User)
      in ([AssignPreferenceScope s, AssignCurrentEditor (map_option uri editor)],
          c\<lparr>preferenceScope := s, currentEditor := editor\<rparr>))"

definition onEditorChanged ::
  "PreferencesContainer \<Rightarrow> PreferencesEditorWidget option
     \<Rightarrow> error + (effect list \<times> PreferencesContainer)" where
  "onEditorChanged c editor =
     (case save_previous c editor of
        Inl e \<Rightarrow> Inl e
      | Inr saved \<Rightarrow> (case assign_editor c editor of (assigned, c') \<Rightarrow> Inr (saved @ assigned, c')))"

section \<open>The editors container\<close>

text \<open>
  What the container reads from its collaborators while one handler runs: the URIs of the
  workspace roots (\<^verbatim>\<open>tryGetRoots().map(r => r.uri)\<close>), whether the workspace is saved,
  the folder preference provider's two URI lookups, the editor manager, and
  \<open>folder_of\<close> for \<^verbatim>\<open>uri.parent.parent.toString()\<close> on an editor URI.
\<close>

record services =
  roots :: "string list"
  saved :: bool
  getConfigUri :: "string option \<Rightarrow> string option"
  getContainingConfigUri :: "string option \<Rightarrow> string option"
  getOrCreateByUri :: "string \<Rightarrow> PreferencesEditorWidget"
  folder_of :: "string \<Rightarrow> string"

record PreferencesEditorsContainer =
  userPreferenceEditorWidget :: "PreferencesEditorWidget option"
  workspacePreferenceEditorWidget :: "PreferencesEditorWidget option"
  foldersPreferenceEditorWidget :: "PreferencesEditorWidget option"

definition activeFolder :: "services \<Rightarrow> PreferencesEditorsContainer \<Rightarrow> string option" where
  "activeFolder sv ec =
     (case foldersPreferenceEditorWidget ec of
        Some w \<Rightarrow> Some (folder_of sv (uri w))
      | None \<Rightarrow> None)"

definition getFolderSettingsUri :: "services \<Rightarrow> string option \<Rightarrow> effect list \<times> string option" where
  "getFolderSettingsUri sv folderUri =
     (case getConfigUri sv folderUri of
        Some configUri \<Rightarrow> ([], Some configUri)
      | None \<Rightarrow>
          (case getContainingConfigUri sv folderUri of
             Some configUri \<Rightarrow> ([CreateFile configUri], Some configUri)
           | None \<Rightarrow> ([], None)))"

text \<open>
  The widget comes from the editor manager and is given the label and the scope of a
  folder editor; its caption and clickable text are display only and left out.
\<close>

definition getFoldersPreferencesEditor ::
  "services \<Rightarrow> string option \<Rightarrow> effect list \<times> PreferencesEditorWidget option" where
  "getFoldersPreferencesEditor sv folderUri =
     (if saved sv then
        (case getFolderSettingsUri sv folderUri of
           (fx, None) \<Rightarrow> (fx, None)
         | (fx, Some settingsUri) \<Rightarrow>
             (fx @ [GetOrCreateByUri settingsUri],
              Some ((getOrCreateByUri sv settingsUri)\<lparr>scope := Some Folder, title_label := ''Folder''\<rparr>)))
      else ([], None))"

definition closeFoldersPreferenceEditorWidget ::
  "PreferencesEditorsContainer \<Rightarrow> effect list \<times> PreferencesEditorsContainer" where
  "closeFoldersPreferenceEditorWidget ec =
     (case foldersPreferenceEditorWidget ec of
        Some w \<Rightarrow> ([WidgetClose (uri w), WidgetDispose (uri w)],
                   ec\<lparr>foldersPreferenceEditorWidget := None\<rparr>)
      | None \<Rightarrow> ([], ec))"

text \<open>\<^verbatim>\<open>currentFolderUri || folders[0]\<close>: the empty string is falsy as well.\<close>

definition newFolderUri :: "services \<Rightarrow> string option \<Rightarrow> string option" where
  "newFolderUri sv currentFolderUri =
     (let first = (case roots sv of [] \<Rightarrow> None | f # _ \<Rightarrow> Some f)
      in case currentFolderUri of
           None \<Rightarrow> first
         | Some u \<Rightarrow> if u = [] then first else Some u)"

text \<open>The reference widget of \<^verbatim>\<open>addWidget\<close>: the first of the three fields that is set.\<close>

definition ref_widget :: "PreferencesEditorsContainer \<Rightarrow> string option" where
  "ref_widget ec =
     (case foldersPreferenceEditorWidget ec of
        Some w \<Rightarrow> Some (uri w)
      | None \<Rightarrow>
          (case workspacePreferenceEditorWidget ec of
             Some w \<Rightarrow> Some (uri w)
           | None \<Rightarrow> map_option uri (userPreferenceEditorWidget ec)))"

text \<open>
  The test of lines 391-393: a folder editor is open and shows the folder asked for.
  A missing target never equals the folder of an open editor.
\<close>

definition shows_folder :: "services \<Rightarrow> PreferencesEditorsContainer \<Rightarrow> string option \<Rightarrow> bool" where
  "shows_folder sv ec target =
     (case foldersPreferenceEditorWidget ec of
        None \<Rightarrow> False
      | Some w \<Rightarrow> Some (folder_of sv (uri w)) = target)"

definition refreshFoldersPreferencesEditorWidget ::
  "services \<Rightarrow> PreferencesEditorsContainer \<Rightarrow> string option
     \<Rightarrow> effect list \<times> PreferencesEditorsContainer" where
  "refreshFoldersPreferencesEditorWidget sv ec currentFolderUri =
     (let target = newFolderUri sv currentFolderUri
      in case getFoldersPreferencesEditor sv target of
           (fx, None) \<Rightarrow> (fx, ec)
         | (fx, Some w) \<Rightarrow>
             if \<not> shows_folder sv ec target then
               (case closeFoldersPreferenceEditorWidget ec of
                  (closing, ec') \<Rightarrow>
                    (fx @ [AddWidget (uri w) (ref_widget ec)] @ closing
                        @ [FireFolderPreferenceEditorUriChanged (uri w)],
                     ec'\<lparr>foldersPreferenceEditorWidget := Some w\<rparr>))
             else (fx, ec))"

text \<open>
  \<^verbatim>\<open>PreferencesContainer.refreshFoldersPreferencesEditor\<close> (lines 240-248), which is all
  that the listener on \<^verbatim>\<open>onWorkspaceChanged\<close> runs.
\<close>

definition refreshFoldersPreferencesEditor ::
  "services \<Rightarrow> PreferencesEditorsContainer \<Rightarrow> effect list \<times> PreferencesEditorsContainer" where
  "refreshFoldersPreferencesEditor sv ec =
     (case roots sv of
        [] \<Rightarrow> closeFoldersPreferenceEditorWidget ec
      | firstRoot # _ \<Rightarrow>
          if \<not> some (\<lambda>r. Some r = activeFolder sv ec) (roots sv)
          then refreshFoldersPreferencesEditorWidget sv ec (Some firstRoot)
          else ([], ec))"

definition onWorkspaceChanged ::
  "services \<Rightarrow> PreferencesEditorsContainer \<Rightarrow> effect list \<times> PreferencesEditorsContainer" where
  "onWorkspaceChanged sv ec = refreshFoldersPreferencesEditor sv ec"

subsection \<open>Reading a trace\<close>

text \<open>
  The entries by which a trace adds, closes or disposes a widget of the container or
  announces a new folder editor; a trace \<open>replaces\<close> when it has such an entry.
\<close>

fun touches_folder_editor :: "effect \<Rightarrow> bool" where
  "touches_folder_editor (AddWidget _ _) = True"
| "touches_folder_editor (WidgetClose _) = True"
| "touches_folder_editor (WidgetDispose _) = True"
| "touches_folder_editor (FireFolderPreferenceEditorUriChanged _) = True"
| "touches_folder_editor _ = False"

definition replaces :: "effect list \<Rightarrow> bool" where
  "replaces fx = some touches_folder_editor fx"

text \<open>The folder-uri-changed events of a trace, and its calls to the editor manager.\<close>

fun is_uri_changed :: "effect \<Rightarrow> bool" where
  "is_uri_changed (FireFolderPreferenceEditorUriChanged _) = True"
| "is_uri_changed _ = False"

fun opens_editor :: "effect \<Rightarrow> bool" where
  "opens_editor (GetOrCreateByUri _) = True"
| "opens_editor _ = False"

section \<open>The tree widget\<close>

subsection \<open>Strings and arrays of the host\<close>

text \<open>\<^verbatim>\<open>String.prototype.indexOf\<close> for a one-character search string: \<open>-1\<close> when absent.\<close>

fun indexOf :: "string \<Rightarrow> char \<Rightarrow> int" where
  "indexOf [] c = - 1"
| "indexOf (x # xs) c =
     (if x = c then 0 else (let i = indexOf xs c in if i < 0 then - 1 else i + 1))"

text \<open>
  \<^verbatim>\<open>String.prototype.substring\<close>: both bounds are clamped to the string and swapped when
  the first exceeds the second.
\<close>

definition substring :: "string \<Rightarrow> int \<Rightarrow> int \<Rightarrow> string" where
  "substring s a b =
     (let n = int (length s);
          a' = max 0 (min a n);
          b' = max 0 (min b n);
          lo = min a' b';
          hi = max a' b'
      in take (nat (hi - lo)) (drop (nat lo) s))"

definition substring_from :: "string \<Rightarrow> int \<Rightarrow> string" where
  "substring_from s a = substring s a (int (length s))"

text \<open>\<^verbatim>\<open>String.prototype.split\<close> for a one-character separator.\<close>

fun split_str :: "string \<Rightarrow> char \<Rightarrow> string list" where
  "split_str [] sep = [[]]"
| "split_str (c # cs) sep =
     (if c = sep then [] # split_str cs sep
      else (case split_str cs sep of
              [] \<Rightarrow> [[c]]
            | s # ss \<Rightarrow> (c # s) # ss))"

text \<open>\<^verbatim>\<open>property.split('.', 1)[0]\<close>.\<close>

definition first_segment :: "string \<Rightarrow> string option" where
  "first_segment property =
     (case take 1 (split_str property (CHR ''.'')) of [] \<Rightarrow> None | s # _ \<Rightarrow> Some s)"

text \<open>The decimal numeral that string concatenation makes of an array length.\<close>

fun string_of_nat :: "nat \<Rightarrow> string" where
  "string_of_nat n =
     (if n < 10 then [''0123456789'' ! n]
      else string_of_nat (n div 10) @ [''0123456789'' ! (n mod 10)])"

declare string_of_nat.simps [simp del]

text \<open>
  \<^verbatim>\<open>Array.prototype.sort\<close> with a comparison function: the sort is stable, so among
  elements that compare as equal the earlier one stays first.
\<close>

fun insert_sorted :: "('a \<Rightarrow> 'a \<Rightarrow> int) \<Rightarrow> 'a \<Rightarrow> 'a list \<Rightarrow> 'a list" where
  "insert_sorted cmp x [] = [x]"
| "insert_sorted cmp x (y # ys) =
     (if cmp x y \<le> 0 then x # y # ys else y # insert_sorted cmp x ys)"

definition array_sort :: "('a \<Rightarrow> 'a \<Rightarrow> int) \<Rightarrow> 'a list \<Rightarrow> 'a list" where
  "array_sort cmp xs = foldr (insert_sorted cmp) xs []"

text \<open>
  On the set \<open>S\<close> the comparison is total and transitive and never returns zero, or a
  sign in both directions, for two different elements.
\<close>

definition strict_order_on :: "('a \<Rightarrow> 'a \<Rightarrow> int) \<Rightarrow> 'a set \<Rightarrow> bool" where
  "strict_order_on cmp S \<longleftrightarrow>
     (\<forall>a \<in> S. \<forall>b \<in> S.
        (cmp a b \<le> 0 \<or> cmp b a \<le> 0)
        \<and> (cmp a b \<le> 0 \<and> cmp b a \<le> 0 \<longrightarrow> a = b)
        \<and> (\<forall>c \<in> S. cmp a b \<le> 0 \<and> cmp b c \<le> 0 \<longrightarrow> cmp a c \<le> 0))"

text \<open>\<^verbatim>\<open>Set.prototype.add\<close> on a set kept in insertion order.\<close>

definition set_add :: "'a \<Rightarrow> 'a list \<Rightarrow> 'a list" where
  "set_add x s = (if x \<in> set s then s else s @ [x])"

text \<open>
  What the widget takes from its host: the collation behind
  \<^verbatim>\<open>localeCompare(b, undefined, { ignorePunctuation: true })\<close>, the case mapping behind
  \<^verbatim>\<open>toLocaleUpperCase\<close>, and \<^verbatim>\<open>PreferenceConfigurations.isSectionName\<close>.
\<close>

record host =
  localeCompare :: "string \<Rightarrow> string \<Rightarrow> int"
  toLocaleUpperCase :: "string \<Rightarrow> string"
  isSectionName :: "string \<Rightarrow> bool"

subsection \<open>Tree nodes\<close>

text \<open>A node refers to its parent by the parent's id.\<close>

record SelectableTreeNode =
  node_id :: string
  node_name :: string
  node_parent :: string
  node_visible :: bool
  node_selected :: bool

record GroupNode =
  group_id :: string
  group_name :: string
  group_visible :: bool
  group_parent :: string
  group_children :: "SelectableTreeNode list"
  group_expanded :: bool
  group_selected :: bool

record ExpandableTreeNode =
  root_id :: string
  root_name :: string
  root_parent :: "string option"
  root_visible :: bool
  root_children :: "GroupNode list"
  root_expanded :: bool

text \<open>
  The schema is the list of the properties of \<^verbatim>\<open>getCombinedSchema().properties\<close> in the
  order in which \<^verbatim>\<open>for ... in\<close> enumerates them; \<open>'p\<close> is the data of a property.
\<close>

record 'p PreferencesTreeWidget =
  activeFolderUri :: "string option"
  preferencesGroupNames :: "string list"
  properties :: "(string \<times> 'p) list"
  model_root :: "ExpandableTreeNode option"

definition new_PreferencesTreeWidget :: "'p PreferencesTreeWidget" where
  "new_PreferencesTreeWidget =
     \<lparr>activeFolderUri = None, preferencesGroupNames = [], properties = [], model_root = None\<rparr>"

subsection \<open>Building the model\<close>

definition sort_cmp :: "host \<Rightarrow> string \<Rightarrow> string \<Rightarrow> int" where
  "sort_cmp h a b = localeCompare h a b"

text \<open>The first loop of \<^verbatim>\<open>initializeModel\<close> (lines 557-565).\<close>

fun collect_group_names :: "string list \<Rightarrow> string list \<Rightarrow> string list" where
  "collect_group_names [] names = names"
| "collect_group_names (property # rest) names =
     collect_group_names rest
       (if property \<noteq> [] then
          (let grp = substring property 0 (indexOf property (CHR ''.''))
           in if length (split_str property (CHR ''.'')) > 1 then set_add grp names else names)
        else names)"

text \<open>The membership loop of a group (lines 587-592).\<close>

definition group_properties :: "host \<Rightarrow> string list \<Rightarrow> string \<Rightarrow> string list" where
  "group_properties h keys grp =
     filter (\<lambda>property. first_segment property = Some grp \<and> \<not> isSectionName h property) keys"

definition property_node :: "string \<Rightarrow> string \<Rightarrow> SelectableTreeNode" where
  "property_node grp property =
     \<lparr>node_id = property,
      node_name = substring_from property (indexOf property (CHR ''.'') + 1),
      node_parent = grp @ ''-id'',
      node_visible = True,
      node_selected = False\<rparr>"

text \<open>
  One pass of the loop over the group names (lines 581-617): the group node, and the
  entries the pass appends to \<^verbatim>\<open>nodes\<close>.
\<close>

definition build_group ::
  "host \<Rightarrow> (string \<times> 'p) list \<Rightarrow> string \<Rightarrow> GroupNode \<times> (string \<times> 'p option) list" where
  "build_group h schema grp =
     (let props = group_properties h (map fst schema) grp;
          sorted = array_sort (sort_cmp h) props
      in (\<lparr>group_id = grp @ ''-id'',
           group_name = substring (toLocaleUpperCase h grp) 0 1 @ substring_from grp 1
                          @ '' ('' @ string_of_nat (length props) @ '')'',
           group_visible = True,
           group_parent = ''root-node-id'',
           group_children = map (property_node grp) sorted,
           group_expanded = False,
           group_selected = False\<rparr>,
          map (\<lambda>property. (property, map_of schema property)) sorted))"

text \<open>
  \<^verbatim>\<open>initializeModel\<close>: the argument of \<^verbatim>\<open>fireDidChangeDecorations\<close> and the widget
  afterwards.
\<close>

definition initializeModel ::
  "host \<Rightarrow> (string \<times> 'p) list \<Rightarrow> 'p PreferencesTreeWidget
     \<Rightarrow> (string \<times> 'p option) list \<times> 'p PreferencesTreeWidget" where
  "initializeModel h schema w =
     (let names = collect_group_names (map fst schema) (preferencesGroupNames w);
          groupNames = array_sort (sort_cmp h) names;
          built = map (build_group h schema) groupNames;
          root = \<lparr>root_id = ''root-node-id'',
                  root_name = ''Apply the preference to selected preferences file'',
                  root_parent = None,
                  root_visible = True,
                  root_children = map fst built,
                  root_expanded = True\<rparr>
      in (concat (map snd built),
          w\<lparr>preferencesGroupNames := names, properties := schema, model_root := Some root\<rparr>))"

text \<open>The group nodes of the model, none while the model has no root.\<close>

definition groups_of :: "'p PreferencesTreeWidget \<Rightarrow> GroupNode list" where
  "groups_of w = (case model_root w of None \<Rightarrow> [] | Some r \<Rightarrow> root_children r)"

section \<open>Sample inputs\<close>

text \<open>An editor widget with a URI, a scope and a dirty flag, autosave off and no label yet.\<close>

definition editor_widget :: "string \<Rightarrow> PreferenceScope \<Rightarrow> bool \<Rightarrow> PreferencesEditorWidget" where
  "editor_widget u s d =
     \<lparr>uri = u, scope = Some s,
      saveable = \<lparr>saveable_dirty = d, saveable_autoSave = Off\<rparr>,
      title_label = []\<rparr>"

text \<open>
  Sample services: every folder has its settings at \<^verbatim>\<open>/.theia/settings.json\<close> below it,
  and the editor manager opens a clean editor for any URI.
\<close>

definition settings_of :: "string option \<Rightarrow> string option" where
  "settings_of folderUri =
     (case folderUri of None \<Rightarrow> None | Some f \<Rightarrow> Some (f @ ''/.theia/settings.json''))"

definition sample_folder_of :: "string \<Rightarrow> string" where
  "sample_folder_of u = take (length u - length ''/.theia/settings.json'') u"

definition sample_services :: "string list \<Rightarrow> bool \<Rightarrow> services" where
  "sample_services rs s =
     \<lparr>roots = rs, saved = s, getConfigUri = settings_of, getContainingConfigUri = (\<lambda>_. None),
      getOrCreateByUri = (\<lambda>u. editor_widget u User False), folder_of = sample_folder_of\<rparr>"

definition sample_container :: "PreferencesEditorWidget option \<Rightarrow> PreferencesEditorsContainer" where
  "sample_container f =
     \<lparr>userPreferenceEditorWidget = Some (editor_widget ''user:/settings.json'' User False),
      workspacePreferenceEditorWidget = None,
      foldersPreferenceEditorWidget = f\<rparr>"

text \<open>
  A sample host for ASCII keys: the comparison drops punctuation and then compares code
  units, so names that differ only in punctuation compare as equal; the case mapping
  raises the letters a to z; the section names are \<^verbatim>\<open>launch\<close> and \<^verbatim>\<open>tasks\<close>.
\<close>

definition is_punctuation :: "char \<Rightarrow> bool" where
  "is_punctuation c \<longleftrightarrow> c \<in> set '' !,-.:;?_''"

fun code_unit_compare :: "string \<Rightarrow> string \<Rightarrow> int" where
  "code_unit_compare [] [] = 0"
| "code_unit_compare [] (y # ys) = - 1"
| "code_unit_compare (x # xs) [] = 1"
| "code_unit_compare (x # xs) (y # ys) =
     (if (of_char x :: nat) < of_char y then - 1
      else if (of_char y :: nat) < of_char x then 1
      else code_unit_compare xs ys)"

definition sample_localeCompare :: "string \<Rightarrow> string \<Rightarrow> int" where
  "sample_localeCompare a b =
     code_unit_compare (filter (\<lambda>c. \<not> is_punctuation c) a) (filter (\<lambda>c. \<not> is_punctuation c) b)"

definition ascii_upper :: "char \<Rightarrow> char" where
  "ascii_upper c =
     (if 97 \<le> (of_char c :: nat) \<and> (of_char c :: nat) \<le> 122 then char_of (of_char c - (32 :: nat)) else c)"

definition sample_host :: host where
  "sample_host =
     \<lparr>localeCompare = sample_localeCompare,
      toLocaleUpperCase = map ascii_upper,
      isSectionName = (\<lambda>name. name \<in> set [''launch'', ''tasks''])\<rparr>"

section \<open>Aggregate state of the tracked editors\<close>

lemma some_iff: "some p xs \<longleftrightarrow> (\<exists>x \<in> set xs. p x)"
  by (induction xs) auto

lemma dirty_iff: "dirty c \<longleftrightarrow> (\<exists>e \<in> set (editors c). saveable_dirty (saveable e))"
  by (simp add: dirty_def some_iff)

text \<open>
  Claim C2. The aggregate \<open>dirty\<close> of the container holds exactly when the saveable of at
  least one tracked editor is dirty; with three editors whose dirty states are false, false,
  true it holds, and with three clean editors it does not.
\<close>

theorem dirty_iff_some_editor_dirty:
  "(dirty c \<longleftrightarrow> (\<exists>e \<in> set (editors c). saveable_dirty (saveable e)))
   \<and> (map (\<lambda>e. saveable_dirty (saveable e)) (editors c) = [False, False, True] \<longrightarrow> dirty c)
   \<and> (map (\<lambda>e. saveable_dirty (saveable e)) (editors c) = [False, False, False] \<longrightarrow> \<not> dirty c)"
proof (intro conjI impI)
  show "dirty c \<longleftrightarrow> (\<exists>e \<in> set (editors c). saveable_dirty (saveable e))"
    by (rule dirty_iff)
next
  assume h: "map (\<lambda>e. saveable_dirty (saveable e)) (editors c) = [False, False, True]"
  have "True \<in> set (map (\<lambda>e. saveable_dirty (saveable e)) (editors c))"
    unfolding h by simp
  then show "dirty c"
    by (auto simp: dirty_iff)
next
  assume h: "map (\<lambda>e. saveable_dirty (saveable e)) (editors c) = [False, False, False]"
  have "True \<notin> set (map (\<lambda>e. saveable_dirty (saveable e)) (editors c))"
    unfolding h by simp
  then show "\<not> dirty c"
    by (auto simp: dirty_iff)
qed

theorem dirty_iff_some_editor_dirty_witness:
  "dirty \<lparr>editors = [editor_widget ''user:/settings.json'' User False,
                     editor_widget ''file:///ws/.theia/settings.json'' Workspace False,
                     editor_widget ''file:///a/.theia/settings.json'' Folder True],
          currentEditor = None, preferenceScope = User\<rparr>
   \<and> \<not> dirty \<lparr>editors = [editor_widget ''user:/settings.json'' User False,
                         editor_widget ''file:///ws/.theia/settings.json'' Workspace False,
                         editor_widget ''file:///a/.theia/settings.json'' Folder False],
              currentEditor = None, preferenceScope = User\<rparr>"
  using dirty_iff_some_editor_dirty
          [of "\<lparr>editors = [editor_widget ''user:/settings.json'' User False,
                           editor_widget ''file:///ws/.theia/settings.json'' Workspace False,
                           editor_widget ''file:///a/.theia/settings.json'' Folder True],
                currentEditor = None, preferenceScope = User\<rparr>"]
        dirty_iff_some_editor_dirty
          [of "\<lparr>editors = [editor_widget ''user:/settings.json'' User False,
                           editor_widget ''file:///ws/.theia/settings.json'' Workspace False,
                           editor_widget ''file:///a/.theia/settings.json'' Folder False],
                currentEditor = None, preferenceScope = User\<rparr>"]
  by (simp add: editor_widget_def)

section \<open>Selecting a preference in the tree\<close>

text \<open>
  Claim C1. For every selection event that the tree fires, \<^verbatim>\<open>{ [property]: value }\<close>:
  if some tracked editor is dirty, the listener issues exactly one warning and no write to
  the preference service; if no tracked editor is dirty and there is a current editor, it
  issues exactly one write, of the chosen value under the chosen key, with the scope and
  the URI of the current editor.
\<close>

theorem preference_selected_warns_or_writes:
  "((\<exists>e \<in> set (editors c). saveable_dirty (saveable e)) \<longrightarrow>
      onPreferenceSelected c (firePreferenceSelected property v)
        = [Warn ''Preferences editor(s) has/have unsaved changes''])
   \<and> ((\<forall>e \<in> set (editors c). \<not> saveable_dirty (saveable e)) \<and> currentEditor c = Some cur \<longrightarrow>
      onPreferenceSelected c (firePreferenceSelected property v)
        = [PreferenceServiceSet (Some property) (Some v) (scope cur) (uri cur)])"
  by (auto simp: onPreferenceSelected_def firePreferenceSelected_def first_key_def
        property_of_def dirty_iff)

theorem preference_selected_warns_or_writes_witness:
  "onPreferenceSelected
      \<lparr>editors = [editor_widget ''user:/settings.json'' User False,
                  editor_widget ''file:///a/.theia/settings.json'' Folder True],
       currentEditor = Some (editor_widget ''user:/settings.json'' User False),
       preferenceScope = User\<rparr>
      (firePreferenceSelected ''editor.fontSize'' ''14'')
     = [Warn ''Preferences editor(s) has/have unsaved changes'']
   \<and> onPreferenceSelected
      \<lparr>editors = [editor_widget ''user:/settings.json'' User False,
                  editor_widget ''file:///a/.theia/settings.json'' Folder False],
       currentEditor = Some (editor_widget ''file:///a/.theia/settings.json'' Folder False),
       preferenceScope = Folder\<rparr>
      (firePreferenceSelected ''editor.fontSize'' ''14'')
     = [PreferenceServiceSet (Some ''editor.fontSize'') (Some ''14'') (Some Folder)
          ''file:///a/.theia/settings.json'']"
  using preference_selected_warns_or_writes
          [of "\<lparr>editors = [editor_widget ''user:/settings.json'' User False,
                           editor_widget ''file:///a/.theia/settings.json'' Folder True],
                currentEditor = Some (editor_widget ''user:/settings.json'' User False),
                preferenceScope = User\<rparr>"
              "''editor.fontSize''" "''14''" "editor_widget ''user:/settings.json'' User False"]
        preference_selected_warns_or_writes
          [of "\<lparr>editors = [editor_widget ''user:/settings.json'' User False,
                           editor_widget ''file:///a/.theia/settings.json'' Folder False],
                currentEditor = Some (editor_widget ''file:///a/.theia/settings.json'' Folder False),
                preferenceScope = Folder\<rparr>"
              "''editor.fontSize''" "''14''"
              "editor_widget ''file:///a/.theia/settings.json'' Folder False"]
  by (simp add: editor_widget_def)

text \<open>
  Claim C10. For every selection event, if no tracked editor is dirty and there is no current
  editor, the listener does nothing: no write to the preference service and no warning.
\<close>

theorem preference_selected_dropped_without_editor:
  assumes "\<forall>e \<in> set (editors c). \<not> saveable_dirty (saveable e)"
    and "currentEditor c = None"
  shows "onPreferenceSelected c ev = []"
  using assms by (simp add: onPreferenceSelected_def dirty_iff)

theorem preference_selected_dropped_without_editor_witness:
  "onPreferenceSelected
      \<lparr>editors = [editor_widget ''user:/settings.json'' User False],
       currentEditor = None, preferenceScope = User\<rparr>
      (firePreferenceSelected ''editor.fontSize'' ''14'') = []"
  using preference_selected_dropped_without_editor
          [of "\<lparr>editors = [editor_widget ''user:/settings.json'' User False],
                currentEditor = None, preferenceScope = User\<rparr>"
              "firePreferenceSelected ''editor.fontSize'' ''14''"]
  by (simp add: editor_widget_def)

section \<open>Changing the focused editor\<close>

text \<open>
  Claim C3. For every editor-changed event carrying an editor, if there is a previously
  focused editor and its URI differs from that of the newly focused one, the listener first
  saves the previous editor and only then assigns the scope of the container and its current
  editor: the save is the first entry of the trace, the two assignments follow it, and the
  container ends with the scope of the new editor (the user scope when that is unset) and
  with the new editor as the current one. Editors are told apart by URI, as the listener
  does.
\<close>

theorem editor_changed_saves_previous_first:
  assumes "currentEditor c = Some cur" and "uri cur \<noteq> uri e"
  shows "onEditorChanged c (Some e) =
           Inr ([SaveableSave (uri cur),
                 AssignPreferenceScope (scope_or_User (scope e)),
                 AssignCurrentEditor (Some (uri e))],
                c\<lparr>preferenceScope := scope_or_User (scope e), currentEditor := Some e\<rparr>)"
  using assms by (simp add: onEditorChanged_def save_previous_def assign_editor_def Let_def)

theorem editor_changed_saves_previous_first_witness:
  "onEditorChanged
      \<lparr>editors = [editor_widget ''user:/settings.json'' User True,
                  editor_widget ''file:///a/.theia/settings.json'' Folder False],
       currentEditor = Some (editor_widget ''user:/settings.json'' User True),
       preferenceScope = User\<rparr>
      (Some (editor_widget ''file:///a/.theia/settings.json'' Folder False))
   = Inr ([SaveableSave ''user:/settings.json'',
           AssignPreferenceScope Folder,
           AssignCurrentEditor (Some ''file:///a/.theia/settings.json'')],
          \<lparr>editors = [editor_widget ''user:/settings.json'' User True,
                      editor_widget ''file:///a/.theia/settings.json'' Folder False],
           currentEditor = Some (editor_widget ''file:///a/.theia/settings.json'' Folder False),
           preferenceScope = Folder\<rparr>)"
  using editor_changed_saves_previous_first
          [of "\<lparr>editors = [editor_widget ''user:/settings.json'' User True,
                           editor_widget ''file:///a/.theia/settings.json'' Folder False],
                currentEditor = Some (editor_widget ''user:/settings.json'' User True),
                preferenceScope = User\<rparr>"
              "editor_widget ''user:/settings.json'' User True"
              "editor_widget ''file:///a/.theia/settings.json'' Folder False"]
  by (simp add: editor_widget_def scope_or_User_def)

section \<open>The folder editor\<close>

lemma getFolderSettingsUri_effects:
  "set (fst (getFolderSettingsUri sv t)) \<subseteq> range CreateFile"
  by (auto simp: getFolderSettingsUri_def split: option.splits)

lemma getFoldersPreferencesEditor_effects:
  "set (fst (getFoldersPreferencesEditor sv t)) \<subseteq> range CreateFile \<union> range GetOrCreateByUri"
  using getFolderSettingsUri_effects [of sv t]
  by (auto simp: getFoldersPreferencesEditor_def split: option.splits prod.splits)

lemma shows_folder_iff:
  "shows_folder sv ec t \<longleftrightarrow>
     (\<exists>old. foldersPreferenceEditorWidget ec = Some old \<and> Some (folder_of sv (uri old)) = t)"
  by (auto simp: shows_folder_def split: option.splits)

lemma refresh_unchanged:
  assumes "snd (getFoldersPreferencesEditor sv (newFolderUri sv targetUri)) = None
           \<or> shows_folder sv ec (newFolderUri sv targetUri)"
  shows "refreshFoldersPreferencesEditorWidget sv ec targetUri
           = (fst (getFoldersPreferencesEditor sv (newFolderUri sv targetUri)), ec)"
  using assms
  by (auto simp: refreshFoldersPreferencesEditorWidget_def Let_def split: prod.splits option.splits)

lemma refresh_replaced:
  assumes "snd (getFoldersPreferencesEditor sv (newFolderUri sv targetUri)) = Some w"
    and "\<not> shows_folder sv ec (newFolderUri sv targetUri)"
  shows "refreshFoldersPreferencesEditorWidget sv ec targetUri
           = (fst (getFoldersPreferencesEditor sv (newFolderUri sv targetUri))
                @ [AddWidget (uri w) (ref_widget ec)]
                @ fst (closeFoldersPreferenceEditorWidget ec)
                @ [FireFolderPreferenceEditorUriChanged (uri w)],
              ec\<lparr>foldersPreferenceEditorWidget := Some w\<rparr>)"
  using assms
  by (auto simp: refreshFoldersPreferencesEditorWidget_def Let_def closeFoldersPreferenceEditorWidget_def
      split: prod.splits option.splits)

lemma not_replaces_get: "\<not> replaces (fst (getFoldersPreferencesEditor sv t))"
  using getFoldersPreferencesEditor_effects [of sv t]
  by (auto simp: replaces_def some_iff)

text \<open>
  Claim C7. For every call \<^verbatim>\<open>refreshFoldersPreferencesEditorWidget(targetUri)\<close>, with the
  target being the argument, or the first root when the argument is missing or empty:
  the folder editor field changes, or a widget is added, closed or disposed, or a
  folder-uri-changed event is fired, only if a new widget could be created and either no
  folder editor is open or the open one shows another folder; when the open folder editor
  shows the target, the container is left as it was and the trace has no such entry; and
  when a widget is created and no open editor shows the target, the created widget becomes
  the folder editor and exactly one folder-uri-changed event is fired, for its URI.
\<close>

theorem folders_editor_replaced_only_for_other_folder:
  "(let target = newFolderUri sv targetUri;
        created = snd (getFoldersPreferencesEditor sv target);
        (fx, ec') = refreshFoldersPreferencesEditorWidget sv ec targetUri
    in ((foldersPreferenceEditorWidget ec' \<noteq> foldersPreferenceEditorWidget ec \<or> replaces fx)
          \<longrightarrow> created \<noteq> None
              \<and> (foldersPreferenceEditorWidget ec = None
                  \<or> (\<exists>old. foldersPreferenceEditorWidget ec = Some old
                        \<and> Some (folder_of sv (uri old)) \<noteq> target)))
       \<and> ((\<exists>old. foldersPreferenceEditorWidget ec = Some old \<and> Some (folder_of sv (uri old)) = target)
          \<longrightarrow> ec' = ec \<and> \<not> replaces fx)
       \<and> (\<forall>w. created = Some w
                \<and> (foldersPreferenceEditorWidget ec = None
                  \<or> (\<exists>old. foldersPreferenceEditorWidget ec = Some old
                        \<and> Some (folder_of sv (uri old)) \<noteq> target))
          \<longrightarrow> foldersPreferenceEditorWidget ec' = Some w
              \<and> filter is_uri_changed fx
                  = [FireFolderPreferenceEditorUriChanged (uri w)]))"
proof -
  define target where "target = newFolderUri sv targetUri"
  define created where "created = snd (getFoldersPreferencesEditor sv target)"
  define fx where "fx = fst (refreshFoldersPreferencesEditorWidget sv ec targetUri)"
  define ec' where "ec' = snd (refreshFoldersPreferencesEditorWidget sv ec targetUri)"
  have nofire: "filter is_uri_changed
                  (fst (getFoldersPreferencesEditor sv target)) = []"
    using getFoldersPreferencesEditor_effects [of sv target] by (auto simp: filter_empty_conv)
  have nofire_close: "filter is_uri_changed
                  (fst (closeFoldersPreferenceEditorWidget ec)) = []"
    by (auto simp: closeFoldersPreferenceEditorWidget_def split: option.splits)
  have a: "created \<noteq> None \<and> \<not> shows_folder sv ec target"
    if "foldersPreferenceEditorWidget ec' \<noteq> foldersPreferenceEditorWidget ec \<or> replaces fx"
  proof (rule ccontr)
    assume "\<not> (created \<noteq> None \<and> \<not> shows_folder sv ec target)"
    then have "created = None \<or> shows_folder sv ec target" by blast
    then have "refreshFoldersPreferencesEditorWidget sv ec targetUri
                 = (fst (getFoldersPreferencesEditor sv target), ec)"
      unfolding created_def target_def by (rule refresh_unchanged)
    then have "ec' = ec" "fx = fst (getFoldersPreferencesEditor sv target)"
      by (simp_all add: ec'_def fx_def)
    with that show False by (simp add: not_replaces_get)
  qed
  have b: "ec' = ec \<and> \<not> replaces fx" if "shows_folder sv ec target"
  proof -
    have "refreshFoldersPreferencesEditorWidget sv ec targetUri
                 = (fst (getFoldersPreferencesEditor sv target), ec)"
      unfolding target_def using that by (intro refresh_unchanged) (simp add: target_def)
    then show ?thesis by (simp add: ec'_def fx_def not_replaces_get)
  qed
  have c: "foldersPreferenceEditorWidget ec' = Some w
           \<and> filter is_uri_changed fx
                  = [FireFolderPreferenceEditorUriChanged (uri w)]"
    if "created = Some w" "\<not> shows_folder sv ec target" for w
  proof -
    have "refreshFoldersPreferencesEditorWidget sv ec targetUri
           = (fst (getFoldersPreferencesEditor sv target)
                @ [AddWidget (uri w) (ref_widget ec)]
                @ fst (closeFoldersPreferenceEditorWidget ec)
                @ [FireFolderPreferenceEditorUriChanged (uri w)],
              ec\<lparr>foldersPreferenceEditorWidget := Some w\<rparr>)"
      unfolding target_def using that by (intro refresh_replaced) (simp_all add: target_def created_def)
    then show ?thesis by (simp add: ec'_def fx_def nofire nofire_close)
  qed
  have sf: "shows_folder sv ec target \<longleftrightarrow>
     (\<exists>old. foldersPreferenceEditorWidget ec = Some old \<and> Some (folder_of sv (uri old)) = target)"
    by (rule shows_folder_iff)
  have nsf: "\<not> shows_folder sv ec target \<longleftrightarrow> (foldersPreferenceEditorWidget ec = None
                  \<or> (\<exists>old. foldersPreferenceEditorWidget ec = Some old
                        \<and> Some (folder_of sv (uri old)) \<noteq> target))"
    by (auto simp: shows_folder_def split: option.splits)
  have goal: "((foldersPreferenceEditorWidget ec' \<noteq> foldersPreferenceEditorWidget ec \<or> replaces fx)
          \<longrightarrow> created \<noteq> None
              \<and> (foldersPreferenceEditorWidget ec = None
                  \<or> (\<exists>old. foldersPreferenceEditorWidget ec = Some old
                        \<and> Some (folder_of sv (uri old)) \<noteq> target)))
       \<and> ((\<exists>old. foldersPreferenceEditorWidget ec = Some old \<and> Some (folder_of sv (uri old)) = target)
          \<longrightarrow> ec' = ec \<and> \<not> replaces fx)
       \<and> (\<forall>w. created = Some w
                \<and> (foldersPreferenceEditorWidget ec = None
                  \<or> (\<exists>old. foldersPreferenceEditorWidget ec = Some old
                        \<and> Some (folder_of sv (uri old)) \<noteq> target))
          \<longrightarrow> foldersPreferenceEditorWidget ec' = Some w
              \<and> filter is_uri_changed fx
                  = [FireFolderPreferenceEditorUriChanged (uri w)])"
    unfolding sf [symmetric] nsf [symmetric] using a b c by blast
  show ?thesis
    unfolding Let_def case_prod_beta
    using goal [unfolded fx_def ec'_def created_def target_def] .
qed

theorem folders_editor_replaced_only_for_other_folder_witness:
  "refreshFoldersPreferencesEditorWidget (sample_services [''file:///a'', ''file:///b''] True)
      (sample_container (Some (editor_widget ''file:///a/.theia/settings.json'' Folder False)))
      (Some ''file:///a'')
     = ([GetOrCreateByUri ''file:///a/.theia/settings.json''],
        sample_container (Some (editor_widget ''file:///a/.theia/settings.json'' Folder False)))
   \<and> foldersPreferenceEditorWidget (snd (refreshFoldersPreferencesEditorWidget
        (sample_services [''file:///a'', ''file:///b''] True)
        (sample_container (Some (editor_widget ''file:///a/.theia/settings.json'' Folder False)))
        (Some ''file:///b'')))
     = Some ((editor_widget ''file:///b/.theia/settings.json'' Folder False)\<lparr>title_label := ''Folder''\<rparr>)"
  using folders_editor_replaced_only_for_other_folder
          [of "sample_services [''file:///a'', ''file:///b''] True" "Some ''file:///a''"
              "sample_container (Some (editor_widget ''file:///a/.theia/settings.json'' Folder False))"]
        folders_editor_replaced_only_for_other_folder
          [of "sample_services [''file:///a'', ''file:///b''] True" "Some ''file:///b''"
              "sample_container (Some (editor_widget ''file:///a/.theia/settings.json'' Folder False))"]
  by (simp add: sample_services_def sample_container_def editor_widget_def settings_of_def
        sample_folder_of_def refreshFoldersPreferencesEditorWidget_def newFolderUri_def
        getFoldersPreferencesEditor_def getFolderSettingsUri_def shows_folder_def
        closeFoldersPreferenceEditorWidget_def ref_widget_def replaces_def)

section \<open>Changes of the workspace roots\<close>

lemma onWorkspaceChanged_no_roots:
  "roots sv = [] \<Longrightarrow> onWorkspaceChanged sv ec = closeFoldersPreferenceEditorWidget ec"
  by (simp add: onWorkspaceChanged_def refreshFoldersPreferencesEditor_def)

lemma onWorkspaceChanged_first_root:
  assumes "roots sv = [folderA]" and "foldersPreferenceEditorWidget ec = None"
  shows "onWorkspaceChanged sv ec = refreshFoldersPreferencesEditorWidget sv ec (Some folderA)"
    and "newFolderUri sv (Some folderA) = Some folderA"
    and "\<not> shows_folder sv ec (Some folderA)"
  using assms
  by (simp_all add: onWorkspaceChanged_def refreshFoldersPreferencesEditor_def activeFolder_def
        newFolderUri_def shows_folder_def)

lemma getFoldersPreferencesEditor_saved:
  assumes "saved sv" and "snd (getFolderSettingsUri sv t) = Some settingsUri"
  shows "getFoldersPreferencesEditor sv t
           = (fst (getFolderSettingsUri sv t) @ [GetOrCreateByUri settingsUri],
              Some ((getOrCreateByUri sv settingsUri)\<lparr>scope := Some Folder, title_label := ''Folder''\<rparr>))"
  using assms by (auto simp: getFoldersPreferencesEditor_def split: prod.splits option.splits)

lemma getFoldersPreferencesEditor_none:
  assumes "\<not> saved sv \<or> snd (getFolderSettingsUri sv t) = None"
  shows "snd (getFoldersPreferencesEditor sv t) = None"
    and "filter opens_editor (fst (getFoldersPreferencesEditor sv t)) = []"
  using assms getFolderSettingsUri_effects [of sv t]
  by (auto simp: getFoldersPreferencesEditor_def filter_empty_conv split: prod.splits option.splits)

text \<open>
  Claim C8, amended. When the roots become \<open>[folderA]\<close> while no folder editor is open:
  if the workspace is saved and a settings URI is found for \<open>folderA\<close>, the editor manager
  is asked for exactly one editor, the one at that settings URI, which is added to the
  container with the folder scope and becomes the folder editor; if the workspace is not
  saved or no settings URI is found, no editor is opened and the container is left as it
  was. When the roots become empty, the open folder editor is closed and disposed and the
  container has no folder editor afterwards.
\<close>

theorem roots_changed_opens_or_closes_folder_editor:
  "(roots sv = [folderA] \<and> foldersPreferenceEditorWidget ec = None \<and> saved sv
      \<and> snd (getFolderSettingsUri sv (Some folderA)) = Some settingsUri
     \<longrightarrow> onWorkspaceChanged sv ec
           = (fst (getFolderSettingsUri sv (Some folderA))
                @ [GetOrCreateByUri settingsUri,
                   AddWidget (uri (getOrCreateByUri sv settingsUri)) (ref_widget ec),
                   FireFolderPreferenceEditorUriChanged (uri (getOrCreateByUri sv settingsUri))],
              ec\<lparr>foldersPreferenceEditorWidget :=
                   Some ((getOrCreateByUri sv settingsUri)\<lparr>scope := Some Folder, title_label := ''Folder''\<rparr>)\<rparr>)
         \<and> filter opens_editor (fst (onWorkspaceChanged sv ec)) = [GetOrCreateByUri settingsUri])
   \<and> (roots sv = [folderA] \<and> foldersPreferenceEditorWidget ec = None
      \<and> (\<not> saved sv \<or> snd (getFolderSettingsUri sv (Some folderA)) = None)
     \<longrightarrow> snd (onWorkspaceChanged sv ec) = ec
         \<and> filter opens_editor (fst (onWorkspaceChanged sv ec)) = [])
   \<and> (roots sv = []
     \<longrightarrow> foldersPreferenceEditorWidget (snd (onWorkspaceChanged sv ec)) = None
         \<and> (\<forall>old. foldersPreferenceEditorWidget ec = Some old
               \<longrightarrow> fst (onWorkspaceChanged sv ec) = [WidgetClose (uri old), WidgetDispose (uri old)]))"
proof (intro conjI impI)
  assume h: "roots sv = [folderA] \<and> foldersPreferenceEditorWidget ec = None \<and> saved sv
      \<and> snd (getFolderSettingsUri sv (Some folderA)) = Some settingsUri"
  let ?w = "(getOrCreateByUri sv settingsUri)\<lparr>scope := Some Folder, title_label := ''Folder''\<rparr>"
  have step: "onWorkspaceChanged sv ec = refreshFoldersPreferencesEditorWidget sv ec (Some folderA)"
    and tgt: "newFolderUri sv (Some folderA) = Some folderA"
    and nsf: "\<not> shows_folder sv ec (Some folderA)"
    using h onWorkspaceChanged_first_root [of sv folderA ec] by simp_all
  have get: "getFoldersPreferencesEditor sv (Some folderA)
           = (fst (getFolderSettingsUri sv (Some folderA)) @ [GetOrCreateByUri settingsUri], Some ?w)"
    using h by (intro getFoldersPreferencesEditor_saved) simp_all
  have closing: "fst (closeFoldersPreferenceEditorWidget ec) = []"
    using h by (simp add: closeFoldersPreferenceEditorWidget_def)
  have "refreshFoldersPreferencesEditorWidget sv ec (Some folderA)
           = (fst (getFoldersPreferencesEditor sv (newFolderUri sv (Some folderA)))
                @ [AddWidget (uri ?w) (ref_widget ec)]
                @ fst (closeFoldersPreferenceEditorWidget ec)
                @ [FireFolderPreferenceEditorUriChanged (uri ?w)],
              ec\<lparr>foldersPreferenceEditorWidget := Some ?w\<rparr>)"
    by (rule refresh_replaced) (simp_all add: tgt get nsf)
  then show eq: "onWorkspaceChanged sv ec
           = (fst (getFolderSettingsUri sv (Some folderA))
                @ [GetOrCreateByUri settingsUri,
                   AddWidget (uri (getOrCreateByUri sv settingsUri)) (ref_widget ec),
                   FireFolderPreferenceEditorUriChanged (uri (getOrCreateByUri sv settingsUri))],
              ec\<lparr>foldersPreferenceEditorWidget := Some ?w\<rparr>)"
    by (simp add: step tgt get closing)
  have "filter opens_editor (fst (getFolderSettingsUri sv (Some folderA))) = []"
    using getFolderSettingsUri_effects [of sv "Some folderA"] by (auto simp: filter_empty_conv)
  then show "filter opens_editor (fst (onWorkspaceChanged sv ec)) = [GetOrCreateByUri settingsUri]"
    by (simp add: eq)
next
  assume h: "roots sv = [folderA] \<and> foldersPreferenceEditorWidget ec = None
      \<and> (\<not> saved sv \<or> snd (getFolderSettingsUri sv (Some folderA)) = None)"
  have step: "onWorkspaceChanged sv ec = refreshFoldersPreferencesEditorWidget sv ec (Some folderA)"
    and tgt: "newFolderUri sv (Some folderA) = Some folderA"
    using h onWorkspaceChanged_first_root [of sv folderA ec] by simp_all
  have none: "snd (getFoldersPreferencesEditor sv (Some folderA)) = None"
    and quiet: "filter opens_editor (fst (getFoldersPreferencesEditor sv (Some folderA))) = []"
    using h getFoldersPreferencesEditor_none [of sv "Some folderA"] by simp_all
  have "refreshFoldersPreferencesEditorWidget sv ec (Some folderA)
           = (fst (getFoldersPreferencesEditor sv (newFolderUri sv (Some folderA))), ec)"
    by (rule refresh_unchanged) (simp add: tgt none)
  then have eq: "onWorkspaceChanged sv ec = (fst (getFoldersPreferencesEditor sv (Some folderA)), ec)"
    by (simp add: step tgt)
  show "snd (onWorkspaceChanged sv ec) = ec" by (simp add: eq)
  show "filter opens_editor (fst (onWorkspaceChanged sv ec)) = []" by (simp add: eq quiet)
next
  assume h: "roots sv = []"
  show "foldersPreferenceEditorWidget (snd (onWorkspaceChanged sv ec)) = None"
    by (simp add: onWorkspaceChanged_no_roots [OF h] closeFoldersPreferenceEditorWidget_def
          split: option.splits)
  show "\<forall>old. foldersPreferenceEditorWidget ec = Some old
               \<longrightarrow> fst (onWorkspaceChanged sv ec) = [WidgetClose (uri old), WidgetDispose (uri old)]"
    by (simp add: onWorkspaceChanged_no_roots [OF h] closeFoldersPreferenceEditorWidget_def)
qed

theorem roots_changed_opens_or_closes_folder_editor_witness:
  "onWorkspaceChanged (sample_services [''file:///a''] True) (sample_container None)
     = ([GetOrCreateByUri ''file:///a/.theia/settings.json'',
         AddWidget ''file:///a/.theia/settings.json'' (Some ''user:/settings.json''),
         FireFolderPreferenceEditorUriChanged ''file:///a/.theia/settings.json''],
        sample_container (Some ((editor_widget ''file:///a/.theia/settings.json'' Folder False)
                                  \<lparr>title_label := ''Folder''\<rparr>)))
   \<and> snd (onWorkspaceChanged (sample_services [''file:///a''] False) (sample_container None))
       = sample_container None
   \<and> onWorkspaceChanged (sample_services [] True)
        (sample_container (Some (editor_widget ''file:///a/.theia/settings.json'' Folder False)))
     = ([WidgetClose ''file:///a/.theia/settings.json'', WidgetDispose ''file:///a/.theia/settings.json''],
        sample_container None)"
  using roots_changed_opens_or_closes_folder_editor
          [of "sample_services [''file:///a''] True" "''file:///a''" "sample_container None"
              "''file:///a/.theia/settings.json''"]
        roots_changed_opens_or_closes_folder_editor
          [of "sample_services [''file:///a''] False" "''file:///a''" "sample_container None"
              "''file:///a/.theia/settings.json''"]
        roots_changed_opens_or_closes_folder_editor
          [of "sample_services [] True" "''file:///a''"
              "sample_container (Some (editor_widget ''file:///a/.theia/settings.json'' Folder False))"
              "''file:///a/.theia/settings.json''"]
  by (simp add: sample_services_def sample_container_def editor_widget_def settings_of_def
        getFolderSettingsUri_def ref_widget_def prod_eq_iff
        onWorkspaceChanged_no_roots closeFoldersPreferenceEditorWidget_def)

text \<open>
  The claim as stated fails in a workspace that is not saved: the roots become
  \<open>[folderA]\<close>, the settings of \<open>folderA\<close> can be found, and yet nothing is opened.
\<close>

theorem unsaved_workspace_opens_no_folder_editor:
  "onWorkspaceChanged (sample_services [''file:///folderA''] False) (sample_container None)
     = ([], sample_container None)"
  by (simp add: onWorkspaceChanged_def refreshFoldersPreferencesEditor_def activeFolder_def
        refreshFoldersPreferencesEditorWidget_def newFolderUri_def getFoldersPreferencesEditor_def
        sample_services_def sample_container_def)


section \<open>The tree of preferences\<close>

subsection \<open>Strings\<close>

lemma indexOf_absent: "c \<notin> set s \<Longrightarrow> indexOf s c = - 1"
  by (induction s) auto

lemma indexOf_present:
  "c \<in> set s \<Longrightarrow> indexOf s c = int (length (takeWhile (\<lambda>x. x \<noteq> c) s))"
  by (induction s) (auto simp: Let_def indexOf_absent)

lemma substring_prefix: "0 \<le> n \<Longrightarrow> substring s 0 n = take (nat n) s"
  by (auto simp: substring_def Let_def min_def max_def)

lemma substring_first: "substring s 0 1 = take 1 s"
  using substring_prefix [of 1 s] by simp

lemma substring_from_drop: "0 \<le> n \<Longrightarrow> substring_from s n = drop (nat n) s"
  by (auto simp: substring_from_def substring_def Let_def min_def max_def)

lemma group_of_dotted:
  assumes "CHR ''.'' \<in> set p"
  shows "substring p 0 (indexOf p (CHR ''.'')) = takeWhile (\<lambda>c. c \<noteq> CHR ''.'') p"
proof -
  have "substring p 0 (indexOf p (CHR ''.'')) = take (length (takeWhile (\<lambda>c. c \<noteq> CHR ''.'') p)) p"
    by (simp add: indexOf_present [OF assms] substring_prefix)
  then show ?thesis
    by (simp add: takeWhile_eq_take [symmetric])
qed

lemma split_str_Cons: "\<exists>rest. split_str s c = takeWhile (\<lambda>x. x \<noteq> c) s # rest"
  by (induction s) (auto split: list.splits)

lemma length_split_str: "length (split_str s c) = Suc (length (filter (\<lambda>x. x = c) s))"
proof (induction s)
  case Nil
  then show ?case by simp
next
  case (Cons x xs)
  obtain rest where "split_str xs c = takeWhile (\<lambda>x. x \<noteq> c) xs # rest"
    using split_str_Cons by blast
  with Cons show ?case by auto
qed

lemma split_str_dotted: "Suc 0 < length (split_str s c) \<longleftrightarrow> c \<in> set s"
  by (simp add: length_split_str filter_empty_conv)

lemma first_segment_eq: "first_segment p = Some (takeWhile (\<lambda>c. c \<noteq> CHR ''.'') p)"
proof -
  obtain rest where "split_str p (CHR ''.'') = takeWhile (\<lambda>c. c \<noteq> CHR ''.'') p # rest"
    using split_str_Cons by blast
  then show ?thesis by (simp add: first_segment_def)
qed

subsection \<open>Group names and sorting\<close>

lemma set_collect_group_names:
  "set (collect_group_names keys names)
     = set names \<union> takeWhile (\<lambda>c. c \<noteq> CHR ''.'') ` {k \<in> set keys. CHR ''.'' \<in> set k}"
proof (induction keys arbitrary: names)
  case Nil
  then show ?case by simp
next
  case (Cons k keys)
  show ?case
  proof (cases "CHR ''.'' \<in> set k")
    case True
    then have "k \<noteq> []" by auto
    with True show ?thesis
      by (auto simp: Cons.IH Let_def split_str_dotted group_of_dotted set_add_def)
  next
    case False
    then show ?thesis
      by (auto simp: Cons.IH Let_def split_str_dotted)
  qed
qed

lemma distinct_collect_group_names:
  "distinct names \<Longrightarrow> distinct (collect_group_names keys names)"
  by (induction keys arbitrary: names) (auto simp: Let_def set_add_def)

lemma mset_insert_sorted: "mset (insert_sorted cmp x xs) = add_mset x (mset xs)"
  by (induction xs) auto

lemma mset_array_sort: "mset (array_sort cmp xs) = mset xs"
  by (induction xs) (auto simp: array_sort_def mset_insert_sorted)

lemma set_array_sort: "set (array_sort cmp xs) = set xs"
  using mset_array_sort [of cmp xs] by (rule mset_eq_setD)

lemma length_array_sort: "length (array_sort cmp xs) = length xs"
  using mset_array_sort [of cmp xs] by (rule mset_eq_length)

lemma distinct_array_sort: "distinct (array_sort cmp xs) \<longleftrightarrow> distinct xs"
  using mset_array_sort [of cmp xs] by (rule mset_eq_imp_distinct_iff)

subsection \<open>The model that is built\<close>

lemma groups_of_initializeModel:
  "groups_of (snd (initializeModel h schema w))
     = map (\<lambda>g. fst (build_group h schema g))
         (array_sort (sort_cmp h) (collect_group_names (map fst schema) (preferencesGroupNames w)))"
  by (simp add: groups_of_def initializeModel_def Let_def comp_def)

lemma names_of_initializeModel:
  "preferencesGroupNames (snd (initializeModel h schema w))
     = collect_group_names (map fst schema) (preferencesGroupNames w)"
  by (simp add: initializeModel_def Let_def)

lemma build_group_id: "group_id (fst (build_group h schema g)) = g @ ''-id''"
  by (simp add: build_group_def Let_def)

lemma build_group_child_ids:
  "map node_id (group_children (fst (build_group h schema g)))
     = array_sort (sort_cmp h) (group_properties h (map fst schema) g)"
  by (simp add: build_group_def Let_def property_node_def comp_def)

lemma build_group_name:
  "group_name (fst (build_group h schema g))
     = take 1 (toLocaleUpperCase h g) @ drop 1 g @ '' ('' @
         string_of_nat (length (group_children (fst (build_group h schema g)))) @ '')''"
  by (simp add: build_group_def Let_def substring_first substring_from_drop length_array_sort)

lemma in_group_properties:
  "k \<in> set (group_properties h keys g)
     \<longleftrightarrow> k \<in> set keys \<and> takeWhile (\<lambda>c. c \<noteq> CHR ''.'') k = g \<and> \<not> isSectionName h k"
  by (auto simp: group_properties_def first_segment_eq)

lemma filter_eq_singleton:
  "distinct xs \<Longrightarrow> x \<in> set xs \<Longrightarrow> filter (\<lambda>y. y = x) xs = [x]"
  by (induction xs) (auto simp: filter_empty_conv)

lemma names_of_new: "preferencesGroupNames new_PreferencesTreeWidget = []"
  by (simp add: new_PreferencesTreeWidget_def)

subsection \<open>Membership of the groups\<close>

text \<open>
  Claim C4. For every schema (an object, so its keys are distinct) and every earlier state of
  the widget (whose group names form a set), in the tree that \<^verbatim>\<open>initializeModel\<close> builds:
  every key with at least one dot that is not a section name is a leaf of exactly one group
  node, the one whose id is made of the key's first dot-segment, and it occurs there once;
  and no leaf of any group node is a section name.
\<close>

theorem dotted_key_under_its_group_only:
  assumes "distinct (map fst schema)" and "distinct (preferencesGroupNames w)"
  shows "(\<forall>property \<in> set (map fst schema).
            CHR ''.'' \<in> set property \<and> \<not> isSectionName h property \<longrightarrow>
            (\<exists>g. filter (\<lambda>g. property \<in> set (map node_id (group_children g)))
                    (groups_of (snd (initializeModel h schema w))) = [g]
                \<and> group_id g = takeWhile (\<lambda>c. c \<noteq> CHR ''.'') property @ ''-id''
                \<and> filter (\<lambda>n. n = property) (map node_id (group_children g)) = [property]))
       \<and> (\<forall>g \<in> set (groups_of (snd (initializeModel h schema w))).
            \<forall>n \<in> set (group_children g). \<not> isSectionName h (node_id n))"
proof (intro conjI ballI impI)
  fix property
  assume mem: "property \<in> set (map fst schema)"
    and ok: "CHR ''.'' \<in> set property \<and> \<not> isSectionName h property"
  let ?seg = "takeWhile (\<lambda>c. c \<noteq> CHR ''.'') property"
  let ?names = "array_sort (sort_cmp h) (collect_group_names (map fst schema) (preferencesGroupNames w))"
  let ?g = "fst (build_group h schema ?seg)"
  have seg_in: "?seg \<in> set ?names"
    using mem ok by (auto simp: set_array_sort set_collect_group_names)
  have dist: "distinct ?names"
    using assms(2) by (simp add: distinct_array_sort distinct_collect_group_names)
  have holds: "property \<in> set (map node_id (group_children (fst (build_group h schema g)))) \<longleftrightarrow> g = ?seg"
    for g
    unfolding build_group_child_ids set_array_sort in_group_properties using mem ok by auto
  have "filter (\<lambda>g. property \<in> set (map node_id (group_children g)))
          (groups_of (snd (initializeModel h schema w)))
        = map (\<lambda>g. fst (build_group h schema g)) (filter (\<lambda>g. g = ?seg) ?names)"
    unfolding groups_of_initializeModel filter_map comp_def holds ..
  also have "\<dots> = [?g]"
    by (simp add: filter_eq_singleton [OF dist seg_in])
  finally have one: "filter (\<lambda>g. property \<in> set (map node_id (group_children g)))
          (groups_of (snd (initializeModel h schema w))) = [?g]" .
  have "distinct (group_properties h (map fst schema) ?seg)"
    using assms(1) by (simp add: group_properties_def)
  then have "distinct (map node_id (group_children ?g))"
    by (simp add: build_group_child_ids distinct_array_sort)
  moreover have "property \<in> set (map node_id (group_children ?g))"
    using holds [of ?seg] by simp
  ultimately have once: "filter (\<lambda>n. n = property) (map node_id (group_children ?g)) = [property]"
    by (rule filter_eq_singleton)
  show "\<exists>g. filter (\<lambda>g. property \<in> set (map node_id (group_children g)))
                    (groups_of (snd (initializeModel h schema w))) = [g]
                \<and> group_id g = ?seg @ ''-id''
                \<and> filter (\<lambda>n. n = property) (map node_id (group_children g)) = [property]"
    using one once build_group_id [of h schema ?seg] by blast
next
  fix g n
  assume "g \<in> set (groups_of (snd (initializeModel h schema w)))" and n: "n \<in> set (group_children g)"
  then obtain grp where g: "g = fst (build_group h schema grp)"
    by (auto simp: groups_of_initializeModel)
  have "node_id n \<in> set (map node_id (group_children g))"
    using n by simp
  then show "\<not> isSectionName h (node_id n)"
    unfolding g build_group_child_ids set_array_sort in_group_properties by simp
qed


theorem dotted_key_under_its_group_only_witness:
  "distinct (map fst [(''editor.fontSize'', ()), (''launch'', ()), (''files.exclude'', ())])
   \<and> distinct (preferencesGroupNames (new_PreferencesTreeWidget :: unit PreferencesTreeWidget))
   \<and> ''editor.fontSize'' \<in> set (map fst [(''editor.fontSize'', ()), (''launch'', ()), (''files.exclude'', ())])
   \<and> CHR ''.'' \<in> set ''editor.fontSize'' \<and> \<not> isSectionName sample_host ''editor.fontSize''
   \<and> (\<exists>g. filter (\<lambda>g. ''editor.fontSize'' \<in> set (map node_id (group_children g)))
              (groups_of (snd (initializeModel sample_host
                 [(''editor.fontSize'', ()), (''launch'', ()), (''files.exclude'', ())]
                 new_PreferencesTreeWidget))) = [g]
          \<and> group_id g = ''editor-id'')"
proof -
  let ?schema = "[(''editor.fontSize'', ()), (''launch'', ()), (''files.exclude'', ())]"
  have d1: "distinct (map fst ?schema)" by simp
  have d2: "distinct (preferencesGroupNames (new_PreferencesTreeWidget :: unit PreferencesTreeWidget))"
    by (simp add: names_of_new)
  have m: "''editor.fontSize'' \<in> set (map fst ?schema)" by simp
  have ok: "CHR ''.'' \<in> set ''editor.fontSize'' \<and> \<not> isSectionName sample_host ''editor.fontSize''"
    by (simp add: sample_host_def)
  have seg: "takeWhile (\<lambda>c. c \<noteq> CHR ''.'') ''editor.fontSize'' = ''editor''" by simp
  from dotted_key_under_its_group_only [OF d1 d2, of sample_host] m ok
  have "\<exists>g. filter (\<lambda>g. ''editor.fontSize'' \<in> set (map node_id (group_children g)))
              (groups_of (snd (initializeModel sample_host ?schema new_PreferencesTreeWidget))) = [g]
          \<and> group_id g = takeWhile (\<lambda>c. c \<noteq> CHR ''.'') ''editor.fontSize'' @ ''-id''"
    by blast
  then show ?thesis
    using d1 d2 m ok unfolding seg by simp
qed

subsection \<open>Labels of the groups\<close>

lemma build_group_name_props:
  "group_name (fst (build_group h schema g))
     = take 1 (toLocaleUpperCase h g) @ drop 1 g @ '' ('' @
         string_of_nat (length (group_properties h (map fst schema) g)) @ '')''"
  by (simp add: build_group_def Let_def substring_first substring_from_drop)

text \<open>
  Claim C5. The label of every group node is the first character of the upper-cased group
  name, then the rest of the group name, then the number of the node's leaves in
  parentheses. In particular, on a new widget and with a host that sorts \<^verbatim>\<open>editor\<close>
  before \<^verbatim>\<open>files\<close>, upper-cases their first letters to \<^verbatim>\<open>E\<close> and \<^verbatim>\<open>F\<close> and has none
  of the three keys as a section name, the schema with the keys \<^verbatim>\<open>editor.fontSize\<close>,
  \<^verbatim>\<open>editor.tabSize\<close>, \<^verbatim>\<open>files.exclude\<close> gives exactly the groups labelled
  \<^verbatim>\<open>Editor (2)\<close> and \<^verbatim>\<open>Files (1)\<close>, in that order.
\<close>

theorem group_label_is_capitalized_name_with_count:
  "(\<forall>g \<in> set (groups_of (snd (initializeModel h schema w))).
      \<exists>grp \<in> set (preferencesGroupNames (snd (initializeModel h schema w))).
        group_id g = grp @ ''-id''
        \<and> group_name g = take 1 (toLocaleUpperCase h grp) @ drop 1 grp
                            @ '' ('' @ string_of_nat (length (group_children g)) @ '')'')
   \<and> (localeCompare h ''editor'' ''files'' < 0
       \<and> take 1 (toLocaleUpperCase h ''editor'') = ''E''
       \<and> take 1 (toLocaleUpperCase h ''files'') = ''F''
       \<and> \<not> isSectionName h ''editor.fontSize''
       \<and> \<not> isSectionName h ''editor.tabSize''
       \<and> \<not> isSectionName h ''files.exclude''
      \<longrightarrow> map group_name (groups_of (snd (initializeModel h
              [(''editor.fontSize'', a), (''editor.tabSize'', b), (''files.exclude'', c)]
              new_PreferencesTreeWidget)))
            = [''Editor (2)'', ''Files (1)''])"
proof (intro conjI ballI impI)
  fix g
  assume "g \<in> set (groups_of (snd (initializeModel h schema w)))"
  then obtain grp where g: "g = fst (build_group h schema grp)"
    and grp: "grp \<in> set (collect_group_names (map fst schema) (preferencesGroupNames w))"
    by (auto simp: groups_of_initializeModel set_array_sort)
  show "\<exists>grp \<in> set (preferencesGroupNames (snd (initializeModel h schema w))).
        group_id g = grp @ ''-id''
        \<and> group_name g = take 1 (toLocaleUpperCase h grp) @ drop 1 grp
                            @ '' ('' @ string_of_nat (length (group_children g)) @ '')''"
    unfolding names_of_initializeModel g
    using grp build_group_id [of h schema grp] build_group_name [of h schema grp] by blast
next
  assume h: "localeCompare h ''editor'' ''files'' < 0
       \<and> take 1 (toLocaleUpperCase h ''editor'') = ''E''
       \<and> take 1 (toLocaleUpperCase h ''files'') = ''F''
       \<and> \<not> isSectionName h ''editor.fontSize''
       \<and> \<not> isSectionName h ''editor.tabSize''
       \<and> \<not> isSectionName h ''files.exclude''"
  let ?schema = "[(''editor.fontSize'', a), (''editor.tabSize'', b), (''files.exclude'', c)]"
  have names: "collect_group_names (map fst ?schema) [] = [''editor'', ''files'']"
    by (simp add: Let_def split_str_dotted set_add_def substring_def)
  have sorted: "array_sort (sort_cmp h) [''editor'', ''files''] = [''editor'', ''files'']"
    using h by (simp add: array_sort_def sort_cmp_def)
  have two: "length (group_properties h [''editor.fontSize'', ''editor.tabSize'', ''files.exclude'']
                        ''editor'') = 2"
    using h by (simp add: group_properties_def first_segment_eq)
  have one: "length (group_properties h [''editor.fontSize'', ''editor.tabSize'', ''files.exclude'']
                        ''files'') = 1"
    using h by (simp add: group_properties_def first_segment_eq)
  have digits: "string_of_nat 2 = ''2''" "string_of_nat 1 = ''1''" "string_of_nat (Suc 0) = ''1''"
    by (simp_all add: string_of_nat.simps)
  show "map group_name (groups_of (snd (initializeModel h ?schema new_PreferencesTreeWidget)))
            = [''Editor (2)'', ''Files (1)'']"
    unfolding groups_of_initializeModel names_of_new names sorted
    using h by (simp add: build_group_name_props two one digits)
qed

theorem group_label_is_capitalized_name_with_count_witness:
  "map group_name (groups_of (snd (initializeModel sample_host
      [(''editor.fontSize'', ()), (''editor.tabSize'', ()), (''files.exclude'', ())]
      new_PreferencesTreeWidget)))
     = [''Editor (2)'', ''Files (1)'']"
proof -
  have "localeCompare sample_host ''editor'' ''files'' < 0
       \<and> take 1 (toLocaleUpperCase sample_host ''editor'') = ''E''
       \<and> take 1 (toLocaleUpperCase sample_host ''files'') = ''F''
       \<and> \<not> isSectionName sample_host ''editor.fontSize''
       \<and> \<not> isSectionName sample_host ''editor.tabSize''
       \<and> \<not> isSectionName sample_host ''files.exclude''"
    by code_simp
  with group_label_is_capitalized_name_with_count [of sample_host "[]" new_PreferencesTreeWidget "()" "()" "()"]
  show ?thesis by blast
qed

subsection \<open>Rebuilding after a change of the schema\<close>

lemma earlier_groups_kept:
  assumes "g \<in> set (preferencesGroupNames w)"
  shows "g @ ''-id'' \<in> set (map group_id (groups_of (snd (initializeModel h schema w))))"
proof -
  have "g \<in> set (array_sort (sort_cmp h)
                   (collect_group_names (map fst schema) (preferencesGroupNames w)))"
    using assms by (simp add: set_array_sort set_collect_group_names)
  then have "group_id (fst (build_group h schema g))
               \<in> set (map group_id (groups_of (snd (initializeModel h schema w))))"
    unfolding groups_of_initializeModel by force
  then show ?thesis by (simp only: build_group_id)
qed

text \<open>
  Claim C6 fails on the code. The set \<^verbatim>\<open>preferencesGroupNames\<close> is a field that
  \<^verbatim>\<open>initializeModel\<close> only ever adds to, so a group of an earlier schema stays in the
  tree: after the schema with \<^verbatim>\<open>editor.fontSize\<close> alone is replaced by the schema with
  \<^verbatim>\<open>files.exclude\<close> alone, the rebuilt tree still has the group \<^verbatim>\<open>Editor (0)\<close>, while
  the same schema on a new widget gives the group \<^verbatim>\<open>Files (1)\<close> only.
\<close>

theorem stale_group_survives_schema_change:
  "map group_name (groups_of (snd (initializeModel sample_host [(''files.exclude'', ())]
      (snd (initializeModel sample_host [(''editor.fontSize'', ())] new_PreferencesTreeWidget)))))
     = [''Editor (0)'', ''Files (1)'']
   \<and> map group_name (groups_of (snd (initializeModel sample_host [(''files.exclude'', ())]
        new_PreferencesTreeWidget)))
     = [''Files (1)'']"
  by code_simp

subsection \<open>Order of groups and properties\<close>

text \<open>
  Claim C9 fails as stated. The group names \<^verbatim>\<open>a-b\<close> and \<^verbatim>\<open>ab\<close> differ only in
  punctuation, the comparison returns zero for them, and the stable sort keeps them in the
  order in which the schema has them: the two orders of the same two keys give the groups
  in two different orders.
\<close>

theorem punctuation_tie_keeps_schema_order:
  "map group_id (groups_of (snd (initializeModel sample_host
      [(''a-b.x'', ()), (''ab.x'', ())] new_PreferencesTreeWidget)))
     = [''a-b-id'', ''ab-id'']
   \<and> map group_id (groups_of (snd (initializeModel sample_host
      [(''ab.x'', ()), (''a-b.x'', ())] new_PreferencesTreeWidget)))
     = [''ab-id'', ''a-b-id'']"
  by code_simp


lemma set_insert_sorted: "set (insert_sorted cmp x xs) = insert x (set xs)"
  using mset_insert_sorted [of cmp x xs] by (metis mset_eq_setD set_mset_add_mset_insert set_mset_mset)

lemma sorted_insert_sorted:
  assumes "strict_order_on cmp S" and "x \<in> S" and "set xs \<subseteq> S"
    and "sorted_wrt (\<lambda>a b. cmp a b \<le> 0) xs"
  shows "sorted_wrt (\<lambda>a b. cmp a b \<le> 0) (insert_sorted cmp x xs)"
  using assms(3,4)
proof (induction xs)
  case Nil
  then show ?case by simp
next
  case (Cons y ys)
  have mem: "y \<in> S" "set ys \<subseteq> S" using Cons.prems by auto
  have tail: "\<forall>z \<in> set ys. cmp y z \<le> 0" "sorted_wrt (\<lambda>a b. cmp a b \<le> 0) ys"
    using Cons.prems by auto
  show ?case
  proof (cases "cmp x y \<le> 0")
    case True
    have "cmp x z \<le> 0" if "z \<in> set ys" for z
    proof -
      have "z \<in> S" "cmp y z \<le> 0" using that mem tail by auto
      with True assms(1,2) mem(1) show ?thesis
        unfolding strict_order_on_def by blast
    qed
    with True Cons.prems show ?thesis by auto
  next
    case False
    have "cmp y x \<le> 0"
      using False assms(1,2) mem(1) unfolding strict_order_on_def by blast
    moreover have "sorted_wrt (\<lambda>a b. cmp a b \<le> 0) (insert_sorted cmp x ys)"
      using Cons.IH mem(2) tail(2) by simp
    ultimately show ?thesis
      using False tail(1) by (auto simp: set_insert_sorted)
  qed
qed

lemma sorted_array_sort:
  assumes "strict_order_on cmp S" and "set xs \<subseteq> S"
  shows "sorted_wrt (\<lambda>a b. cmp a b \<le> 0) (array_sort cmp xs)"
  using assms(2)
proof (induction xs)
  case Nil
  then show ?case by (simp add: array_sort_def)
next
  case (Cons x xs)
  have "sorted_wrt (\<lambda>a b. cmp a b \<le> 0) (insert_sorted cmp x (array_sort cmp xs))"
    using assms(1)
  proof (rule sorted_insert_sorted)
    show "x \<in> S" using Cons.prems by simp
    show "set (array_sort cmp xs) \<subseteq> S" using Cons.prems by (simp add: set_array_sort)
    show "sorted_wrt (\<lambda>a b. cmp a b \<le> 0) (array_sort cmp xs)" using Cons by simp
  qed
  then show ?case by (simp add: array_sort_def)
qed

lemma sorted_lists_equal:
  assumes "strict_order_on cmp S" and "set xs \<subseteq> S"
    and "sorted_wrt (\<lambda>a b. cmp a b \<le> 0) xs" and "sorted_wrt (\<lambda>a b. cmp a b \<le> 0) ys"
    and "mset xs = mset ys"
  shows "xs = ys"
  using assms(2-)
proof (induction xs arbitrary: ys)
  case Nil
  then show ?case by simp
next
  case (Cons x xs)
  then obtain y ys' where ys: "ys = y # ys'"
    by (cases ys) auto
  have sets: "set (x # xs) = set (y # ys')"
    using Cons.prems(4) unfolding ys by (rule mset_eq_setD)
  have "x = y"
  proof (rule ccontr)
    assume ne: "x \<noteq> y"
    have "x \<in> set ys'" "y \<in> set xs" using sets ne by auto
    then have "cmp y x \<le> 0" "cmp x y \<le> 0"
      using Cons.prems(2,3) unfolding ys by auto
    moreover have "x \<in> S" "y \<in> S" using Cons.prems(1) sets by auto
    ultimately show False
      using assms(1) ne unfolding strict_order_on_def by blast
  qed
  moreover have "xs = ys'"
  proof (rule Cons.IH)
    show "set xs \<subseteq> S" using Cons.prems(1) by simp
    show "sorted_wrt (\<lambda>a b. cmp a b \<le> 0) xs" using Cons.prems(2) by simp
    show "sorted_wrt (\<lambda>a b. cmp a b \<le> 0) ys'" using Cons.prems(3) unfolding ys by simp
    show "mset xs = mset ys'" using Cons.prems(4) \<open>x = y\<close> unfolding ys by simp
  qed
  ultimately show ?case unfolding ys by simp
qed

lemma array_sort_permuted:
  assumes "strict_order_on cmp (set xs)" and "mset ys = mset xs"
  shows "array_sort cmp ys = array_sort cmp xs"
proof -
  have sets: "set ys = set xs" using assms(2) by (rule mset_eq_setD)
  show ?thesis
  proof (rule sorted_lists_equal [OF assms(1)])
    show "set (array_sort cmp ys) \<subseteq> set xs" by (simp add: set_array_sort sets)
    show "sorted_wrt (\<lambda>a b. cmp a b \<le> 0) (array_sort cmp ys)"
      using assms(1) by (rule sorted_array_sort) (simp add: sets)
    show "sorted_wrt (\<lambda>a b. cmp a b \<le> 0) (array_sort cmp xs)"
      using assms(1) by (rule sorted_array_sort) simp
    show "mset (array_sort cmp ys) = mset (array_sort cmp xs)"
      by (simp add: mset_array_sort assms(2))
  qed
qed

lemma collect_group_names_permuted:
  assumes "mset keys' = mset keys" and "distinct names"
  shows "mset (collect_group_names keys' names) = mset (collect_group_names keys names)"
proof -
  have "set keys' = set keys" using assms(1) by (rule mset_eq_setD)
  then have "set (collect_group_names keys' names) = set (collect_group_names keys names)"
    by (simp add: set_collect_group_names)
  moreover have "distinct (collect_group_names keys' names)" "distinct (collect_group_names keys names)"
    using assms(2) by (simp_all add: distinct_collect_group_names)
  ultimately show ?thesis
    by (simp add: set_eq_iff_mset_eq_distinct)
qed

lemma group_properties_permuted:
  assumes "mset keys' = mset keys"
  shows "mset (group_properties h keys' g) = mset (group_properties h keys g)"
  using assms by (simp add: group_properties_def mset_filter)

lemma build_group_permuted:
  assumes "mset (map fst schema') = mset (map fst schema)"
    and "strict_order_on (localeCompare h) (set (group_properties h (map fst schema) g))"
  shows "fst (build_group h schema' g) = fst (build_group h schema g)"
proof -
  have perm: "mset (group_properties h (map fst schema') g) = mset (group_properties h (map fst schema) g)"
    using assms(1) by (rule group_properties_permuted)
  have cmp: "sort_cmp h = localeCompare h"
    by (rule ext)+ (simp add: sort_cmp_def)
  have "array_sort (sort_cmp h) (group_properties h (map fst schema') g)
          = array_sort (sort_cmp h) (group_properties h (map fst schema) g)"
    unfolding cmp using assms(2) perm by (rule array_sort_permuted)
  moreover have "length (group_properties h (map fst schema') g)
                   = length (group_properties h (map fst schema) g)"
    using perm by (rule mset_eq_length)
  ultimately show ?thesis
    by (simp add: build_group_def Let_def)
qed

text \<open>
  Claim C9, amended. Group names, and the properties of a group, are sorted by the same
  comparison. For any permutation of the schema, the tree that is built is the same, in
  the order of its groups and in the order of the properties of every group, provided
  that the comparison is a total order without ties on the group names and on the
  properties of each group, that is, provided it never returns zero for two different
  group names or for two different properties of one group.
\<close>

theorem permuted_schema_same_tree_without_ties:
  assumes "mset schema' = mset schema"
    and "distinct (preferencesGroupNames w)"
    and "strict_order_on (localeCompare h)
           (set (collect_group_names (map fst schema) (preferencesGroupNames w)))"
    and "\<forall>g \<in> set (collect_group_names (map fst schema) (preferencesGroupNames w)).
           strict_order_on (localeCompare h) (set (group_properties h (map fst schema) g))"
  shows "model_root (snd (initializeModel h schema' w)) = model_root (snd (initializeModel h schema w))
         \<and> map group_id (groups_of (snd (initializeModel h schema w)))
             = map (\<lambda>g. g @ ''-id'')
                 (array_sort (localeCompare h) (preferencesGroupNames (snd (initializeModel h schema w))))
         \<and> (\<forall>g \<in> set (groups_of (snd (initializeModel h schema w))).
               \<exists>grp. group_id g = grp @ ''-id''
                 \<and> map node_id (group_children g)
                     = array_sort (localeCompare h) (group_properties h (map fst schema) grp))"
proof (intro conjI ballI)
  let ?names = "collect_group_names (map fst schema) (preferencesGroupNames w)"
  let ?names' = "collect_group_names (map fst schema') (preferencesGroupNames w)"
  have cmp: "sort_cmp h = localeCompare h"
    by (rule ext)+ (simp add: sort_cmp_def)
  have keys: "mset (map fst schema') = mset (map fst schema)"
    using assms(1) by (metis mset_map)
  have "mset ?names' = mset ?names"
    using keys assms(2) by (rule collect_group_names_permuted)
  with assms(3) have sorted: "array_sort (sort_cmp h) ?names' = array_sort (sort_cmp h) ?names"
    unfolding cmp by (rule array_sort_permuted)
  have "fst (build_group h schema' g) = fst (build_group h schema g)"
    if "g \<in> set (array_sort (sort_cmp h) ?names)" for g
    using keys
  proof (rule build_group_permuted)
    show "strict_order_on (localeCompare h) (set (group_properties h (map fst schema) g))"
      using that assms(4) by (simp add: set_array_sort)
  qed
  then have "map (\<lambda>g. fst (build_group h schema' g)) (array_sort (sort_cmp h) ?names)
               = map (\<lambda>g. fst (build_group h schema g)) (array_sort (sort_cmp h) ?names)"
    by simp
  then show "model_root (snd (initializeModel h schema' w)) = model_root (snd (initializeModel h schema w))"
    by (simp add: initializeModel_def Let_def sorted comp_def)
  show "map group_id (groups_of (snd (initializeModel h schema w)))
             = map (\<lambda>g. g @ ''-id'')
                 (array_sort (localeCompare h) (preferencesGroupNames (snd (initializeModel h schema w))))"
    by (simp add: groups_of_initializeModel names_of_initializeModel cmp comp_def build_group_id)
  fix g
  assume "g \<in> set (groups_of (snd (initializeModel h schema w)))"
  then obtain grp where "g = fst (build_group h schema grp)"
    by (auto simp: groups_of_initializeModel)
  then show "\<exists>grp. group_id g = grp @ ''-id''
                 \<and> map node_id (group_children g)
                     = array_sort (localeCompare h) (group_properties h (map fst schema) grp)"
    using build_group_id [of h schema grp] build_group_child_ids [of h schema grp]
    unfolding cmp by blast
qed

theorem permuted_schema_same_tree_without_ties_witness:
  "model_root (snd (initializeModel sample_host
      [(''files.exclude'', ()), (''editor.tabSize'', ()), (''editor.fontSize'', ())]
      new_PreferencesTreeWidget))
   = model_root (snd (initializeModel sample_host
      [(''editor.fontSize'', ()), (''editor.tabSize'', ()), (''files.exclude'', ())]
      new_PreferencesTreeWidget))"
proof -
  let ?schema = "[(''editor.fontSize'', ()), (''editor.tabSize'', ()), (''files.exclude'', ())]"
  let ?schema' = "[(''files.exclude'', ()), (''editor.tabSize'', ()), (''editor.fontSize'', ())]"
  let ?w = "new_PreferencesTreeWidget :: unit PreferencesTreeWidget"
  have p: "mset ?schema' = mset ?schema" by simp
  have d: "distinct (preferencesGroupNames ?w)" by (simp add: names_of_new)
  have g: "strict_order_on (localeCompare sample_host)
             (set (collect_group_names (map fst ?schema) (preferencesGroupNames ?w)))"
    by code_simp
  have k: "\<forall>g \<in> set (collect_group_names (map fst ?schema) (preferencesGroupNames ?w)).
             strict_order_on (localeCompare sample_host)
               (set (group_properties sample_host (map fst ?schema) g))"
    by code_simp
  from permuted_schema_same_tree_without_ties [OF p d g k] show ?thesis by blast
qed


end
